theory Spec2Isabelle
  imports Main
begin

section \<open>JavaScript values and strings\<close>

text \<open>
  The handlers of \<^verbatim>\<open>server.js\<close> read the fields of a JSON request body. A field is
  absent (\<^verbatim>\<open>undefined\<close> after destructuring) or holds a JSON value. The handlers observe
  of a value only whether it is truthy, whether it is a string, and which string; of a
  number they observe only whether it is zero, so numbers are integers here, and arrays
  and objects (always truthy, never strings) are one constructor. The body itself is
  an object, as \<^verbatim>\<open>express.json()\<close> of Express 4 provides it.
\<close>

datatype jsval =
    JUndefined
  | JNull
  | JBool bool
  | JNum int
  | JStr string
  | JOther

fun truthy :: "jsval \<Rightarrow> bool" where
  "truthy JUndefined = False"
| "truthy JNull = False"
| "truthy (JBool b) = b"
| "truthy (JNum n) = (n \<noteq> 0)"
| "truthy (JStr s) = (s \<noteq> [])"
| "truthy JOther = True"

text \<open>
  A string is a list of code units. HOL's \<^typ>\<open>char\<close> has 256 values, read here as the
  code units U+0000 to U+00FF; on these \<^verbatim>\<open>String.prototype.trim\<close> strips TAB, LF, VT, FF,
  CR, SPACE and NO-BREAK SPACE, and \<^verbatim>\<open>toLowerCase\<close> maps A to Z and U+00C0 to U+00DE
  (without the multiplication sign U+00D7) to the code unit 32 above.
\<close>

definition isWhiteSpace :: "char \<Rightarrow> bool" where
  "isWhiteSpace c =
     (c \<in> set [CHR 0x09, CHR 0x0A, CHR 0x0B, CHR 0x0C, CHR 0x0D, CHR 0x20, CHR 0xA0])"

definition trim :: "string \<Rightarrow> string" where
  "trim s = rev (dropWhile isWhiteSpace (rev (dropWhile isWhiteSpace s)))"

definition lowerChar :: "char \<Rightarrow> char" where
  "lowerChar c =
     (let n = (of_char c :: nat) in
      if (65 \<le> n \<and> n \<le> 90) \<or> (192 \<le> n \<and> n \<le> 222 \<and> n \<noteq> 215)
      then char_of (n + 32) else c)"

definition toLowerCase :: "string \<Rightarrow> string" where
  "toLowerCase s = map lowerChar s"

fun startsWith :: "string \<Rightarrow> string \<Rightarrow> bool" where
  "startsWith s [] = True"
| "startsWith [] (k # ks) = False"
| "startsWith (c # cs) (k # ks) = (c = k \<and> startsWith cs ks)"

fun includes_str :: "string \<Rightarrow> string \<Rightarrow> bool" where
  "includes_str [] k = (k = [])"
| "includes_str (c # cs) k = (startsWith (c # cs) k \<or> includes_str cs k)"

fun some :: "('a \<Rightarrow> bool) \<Rightarrow> 'a list \<Rightarrow> bool" where
  "some f [] = False"
| "some f (x # xs) = (f x \<or> some f xs)"

section \<open>The query gate (server.js, lines 107 to 136)\<close>

definition trimmedQuery :: "string \<Rightarrow> string" where
  "trimmedQuery query = toLowerCase (trim query)"

definition dangerousKeywords :: "string list" where
  "dangerousKeywords =
     [''drop'', ''delete'', ''truncate'', ''alter'', ''create'', ''insert'', ''update'']"

definition containsDangerous :: "string \<Rightarrow> bool" where
  "containsDangerous query =
     some (\<lambda>keyword. includes_str (trimmedQuery query) keyword) dangerousKeywords"

datatype verdict = ALLOWED | REJECTED

text \<open>
  The gate is written inline in the query handler: the nested \<^verbatim>\<open>if\<close> of lines 120 to 136
  returns the 403 response (\<open>REJECTED\<close>) or falls through to the execution (\<open>ALLOWED\<close>).
\<close>

definition classify :: "string \<Rightarrow> verdict" where
  "classify query =
     (if \<not> startsWith (trimmedQuery query) ''select'' \<and>
         \<not> startsWith (trimmedQuery query) ''with''
      then (if containsDangerous query then REJECTED else ALLOWED)
      else ALLOWED)"

section \<open>Errors, responses and the outside world\<close>

text \<open>
  An exception value, with the three properties the handlers read of it
  (\<^verbatim>\<open>error.message\<close>, \<^verbatim>\<open>error.code\<close>, \<^verbatim>\<open>error.position\<close>; the last two are
  \<^verbatim>\<open>undefined\<close> on errors of the language itself). \<open>kind\<close> is the constructor's name.
\<close>

record js_error =
  kind :: string
  message :: string
  code :: "string option"
  position :: "string option"

definition TypeError :: "string \<Rightarrow> js_error" where
  "TypeError m = \<lparr>kind = ''TypeError'', message = m, code = None, position = None\<rparr>"

definition ReferenceError :: "string \<Rightarrow> js_error" where
  "ReferenceError m =
     \<lparr>kind = ''ReferenceError'', message = m, code = None, position = None\<rparr>"

text \<open>What \<^verbatim>\<open>pool.query\<close> resolves to: the rows, the row count and the columns.\<close>

record pg_field =
  name :: string
  dataTypeID :: nat
  format :: string

record query_result =
  rows :: "(string \<times> jsval) list list"
  rowCount :: "nat option"
  resultFields :: "pg_field list option"

text \<open>
  The JSON bodies the handlers send. \<open>Failure\<close> is \<^verbatim>\<open>{success: false, error}\<close>, with
  \<^verbatim>\<open>details\<close> or \<^verbatim>\<open>hint\<close> added in the next two; \<open>QueryFailure\<close> carries
  \<^verbatim>\<open>error\<close>, \<^verbatim>\<open>errorCode\<close>, \<^verbatim>\<open>position\<close> and \<^verbatim>\<open>query\<close>; \<open>Connected\<close> carries
  \<^verbatim>\<open>message\<close>, \<^verbatim>\<open>connectionId\<close> and the three fields of \<^verbatim>\<open>serverInfo\<close>; \<open>QueryOk\<close>
  carries \<^verbatim>\<open>rows\<close>, \<^verbatim>\<open>rowCount\<close>, \<^verbatim>\<open>executionTime\<close>, \<^verbatim>\<open>fields\<close>, \<^verbatim>\<open>sql\<close> and
  \<^verbatim>\<open>timestamp\<close>; \<open>Disconnected\<close> carries \<^verbatim>\<open>message\<close>.
\<close>

datatype payload =
    Failure string
  | FailureDetails string string
  | FailureHint string string
  | QueryFailure string jsval "string option" jsval
  | Connected string string jsval jsval jsval
  | QueryOk "(string \<times> jsval) list list" "nat option" int "(string \<times> nat) list option"
      string string
  | Disconnected string

text \<open>
  A handler either sends a response (status code and body) or its promise rejects with
  no response sent: an exception thrown inside a \<^verbatim>\<open>catch\<close> block is caught by nothing.
\<close>

datatype outcome =
    Responded nat payload
  | Uncaught js_error

text \<open>
  A pool object is identified by the number of pools constructed before it. What a
  handler does to the outside world and to the \<^verbatim>\<open>connections\<close> map is logged, in order.
\<close>

type_synonym pool = nat

datatype event =
    NewPool pool
  | PoolConnect pool
  | ClientQuery pool string
  | ClientRelease pool
  | MapSet string pool
  | PoolEnd pool
  | MapDelete string
  | PoolQuery pool string

text \<open>
  What the outside world answers during one request: the clock (\<^verbatim>\<open>Date.now()\<close> at lines
  56 and 138, and again at line 140), the outcome of \<^verbatim>\<open>pool.connect()\<close>, of the probe
  \<^verbatim>\<open>client.query("SELECT NOW()")\<close>, of \<^verbatim>\<open>pool.end()\<close> and of \<^verbatim>\<open>pool.query(sql)\<close>
  (\<open>None\<close>: the promise resolves; \<open>Some error\<close>: it rejects), and the text of
  \<^verbatim>\<open>new Date().toISOString()\<close>. The connection string and the pool limits of lines 40 to
  48 only reach the outside world, whose answers are given here.
\<close>

record env =
  dateNow :: nat
  dateNowAfter :: nat
  toISOString :: string
  poolConnect :: "js_error option"
  clientQuery :: "js_error option"
  poolEnd :: "pool \<Rightarrow> js_error option"
  poolQuery :: "pool \<Rightarrow> string \<Rightarrow> js_error + query_result"

section \<open>The connections map\<close>

text \<open>
  A JavaScript \<^verbatim>\<open>Map\<close> iterates in insertion order: \<^verbatim>\<open>set\<close> on a present key replaces
  the value where it stands, on an absent key it appends; \<^verbatim>\<open>keys().next().value\<close> is the
  first key. All keys stored are strings, so \<^verbatim>\<open>get\<close> and \<^verbatim>\<open>delete\<close> of a value that is
  not a string find nothing.
\<close>

fun map_set :: "string \<Rightarrow> pool \<Rightarrow> (string \<times> pool) list \<Rightarrow> (string \<times> pool) list" where
  "map_set k v [] = [(k, v)]"
| "map_set k v ((k', v') # xs) =
     (if k' = k then (k, v) # xs else (k', v') # map_set k v xs)"

definition map_delete :: "string \<Rightarrow> (string \<times> pool) list \<Rightarrow> (string \<times> pool) list" where
  "map_delete k xs = filter (\<lambda>(k', v). k' \<noteq> k) xs"

fun map_get :: "(string \<times> pool) list \<Rightarrow> jsval \<Rightarrow> pool option" where
  "map_get m (JStr s) = map_of m s"
| "map_get m v = None"

record server =
  connections :: "(string \<times> pool) list"
  pools :: nat

definition initial :: server where
  "initial = \<lparr>connections = [], pools = 0\<rparr>"

record request_body =
  host :: jsval
  database :: jsval
  username :: jsval
  password :: jsval
  connectionId :: jsval
  query :: jsval

section \<open>Number to string\<close>

definition digitChar :: "nat \<Rightarrow> char" where
  "digitChar d = ''0123456789'' ! d"

fun toString :: "nat \<Rightarrow> string" where
  "toString n =
     (if n < 10 then [digitChar n] else toString (n div 10) @ [digitChar (n mod 10)])"

declare toString.simps [simp del]

section \<open>POST /api/connect (server.js, lines 28 to 85)\<close>

definition connect_catch :: "js_error \<Rightarrow> outcome" where
  "connect_catch error =
     Responded 500 (FailureDetails ''Failed to connect to database'' (message error))"

definition connect_success :: "string \<Rightarrow> request_body \<Rightarrow> outcome" where
  "connect_success cid body =
     Responded 200 (Connected ''Connected successfully to database'' cid
       (host body) (database body) (username body))"

text \<open>
  Lines 59 to 65, run after the new entry is stored. The two branches that raise a
  \<open>TypeError\<close> are what the code would do on an empty map; no map with more than 100
  entries is empty.
\<close>

definition cleanup :: "env \<Rightarrow> server \<Rightarrow> (server \<times> event list) + (server \<times> js_error \<times> event list)" where
  "cleanup env st =
     (if length (connections st) > 100 then
        (case connections st of
           [] \<Rightarrow> Inr (st, TypeError ''Cannot read properties of undefined (reading 'end')'', [])
         | (oldestKey, v) # rest \<Rightarrow>
             (case map_of (connections st) oldestKey of
                None \<Rightarrow>
                  Inr (st, TypeError ''Cannot read properties of undefined (reading 'end')'', [])
              | Some oldPool \<Rightarrow>
                  (case poolEnd env oldPool of
                     Some error \<Rightarrow> Inr (st, error, [PoolEnd oldPool])
                   | None \<Rightarrow>
                       Inl (st\<lparr>connections := map_delete oldestKey (connections st)\<rparr>,
                            [PoolEnd oldPool, MapDelete oldestKey]))))
      else Inl (st, []))"

definition connect :: "env \<Rightarrow> server \<Rightarrow> request_body \<Rightarrow> server \<times> outcome \<times> event list" where
  "connect env st body =
     (if \<not> truthy (host body) \<or> \<not> truthy (database body) \<or>
         \<not> truthy (username body) \<or> \<not> truthy (password body)
      then (st, Responded 400 (Failure ''Missing required connection parameters''), [])
      else
        let pool = pools st;
            st1 = st\<lparr>pools := Suc (pools st)\<rparr>
        in case poolConnect env of
             Some error \<Rightarrow> (st1, connect_catch error, [NewPool pool, PoolConnect pool])
           | None \<Rightarrow>
               (case clientQuery env of
                  Some error \<Rightarrow>
                    (st1, connect_catch error,
                     [NewPool pool, PoolConnect pool, ClientQuery pool ''SELECT NOW()''])
                | None \<Rightarrow>
                    let cid = toString (dateNow env);
                        st2 = st1\<lparr>connections := map_set cid pool (connections st1)\<rparr>;
                        evs = [NewPool pool, PoolConnect pool, ClientQuery pool ''SELECT NOW()'',
                               ClientRelease pool, MapSet cid pool]
                    in case cleanup env st2 of
                         Inr (st3, error, evs') \<Rightarrow> (st3, connect_catch error, evs @ evs')
                       | Inl (st3, evs') \<Rightarrow> (st3, connect_success cid body, evs @ evs')))"

section \<open>POST /api/query (server.js, lines 88 to 192)\<close>

text \<open>
  The \<^verbatim>\<open>catch\<close> block of the query handler. \<^verbatim>\<open>connectionId\<close> and \<^verbatim>\<open>query\<close> are declared
  with \<^verbatim>\<open>const\<close> inside the \<^verbatim>\<open>try\<close> block, so they are not in scope here: the names this
  block can resolve are its own, the handler's parameters and those of the module (the
  global object of Node has no property \<^verbatim>\<open>query\<close>). Resolving a name that is not
  declared throws a \<open>ReferenceError\<close>.
\<close>

definition errorMessage :: "js_error \<Rightarrow> string" where
  "errorMessage error =
     (case code error of
        None \<Rightarrow> message error
      | Some c \<Rightarrow>
          if c = [] then message error
          else if c = ''42P01'' then ''Table or relation does not exist: '' @ message error
          else if c = ''42703'' then ''Column does not exist: '' @ message error
          else if c = ''42601'' then ''Syntax error in SQL query: '' @ message error
          else if c = ''42804'' then ''Data type mismatch: '' @ message error
          else message error)"

definition errorCode :: "js_error \<Rightarrow> jsval" where
  "errorCode error = (case code error of None \<Rightarrow> JUndefined | Some c \<Rightarrow> JStr c)"

definition catch_scope :: "js_error \<Rightarrow> (string \<times> jsval) list" where
  "catch_scope error =
     [(''errorMessage'', JStr (errorMessage error)), (''errorCode'', errorCode error),
      (''error'', JOther), (''req'', JOther), (''res'', JOther),
      (''express'', JOther), (''Pool'', JOther), (''cors'', JOther), (''path'', JOther),
      (''app'', JOther), (''PORT'', JOther), (''connections'', JOther),
      (''exports'', JOther), (''require'', JOther), (''module'', JOther),
      (''__filename'', JOther), (''__dirname'', JOther)]"

definition resolve :: "(string \<times> jsval) list \<Rightarrow> string \<Rightarrow> js_error + jsval" where
  "resolve scope x =
     (case map_of scope x of
        None \<Rightarrow> Inl (ReferenceError (x @ '' is not defined''))
      | Some v \<Rightarrow> Inr v)"

definition query_catch :: "js_error \<Rightarrow> outcome" where
  "query_catch error =
     (case resolve (catch_scope error) ''query'' of
        Inl thrown \<Rightarrow> Uncaught thrown
      | Inr q \<Rightarrow>
          Responded 400 (QueryFailure (errorMessage error) (errorCode error) (position error) q))"

definition query_success :: "env \<Rightarrow> query_result \<Rightarrow> string \<Rightarrow> outcome" where
  "query_success env result q =
     Responded 200 (QueryOk (rows result) (rowCount result)
       (int (dateNowAfter env) - int (dateNow env))
       (map_option (map (\<lambda>field. (name field, dataTypeID field))) (resultFields result))
       q (toISOString env))"

definition query_handler :: "env \<Rightarrow> server \<Rightarrow> request_body \<Rightarrow> server \<times> outcome \<times> event list" where
  "query_handler env st body =
     (if \<not> truthy (connectionId body) \<or> \<not> truthy (query body)
      then (st, Responded 400 (Failure ''Missing connectionId or query''), [])
      else
        case map_get (connections st) (connectionId body) of
          None \<Rightarrow> (st, Responded 400 (Failure ''Invalid connection ID or connection expired''), [])
        | Some pool \<Rightarrow>
            (case query body of
               JStr q \<Rightarrow>
                 (case classify q of
                    REJECTED \<Rightarrow>
                      (st, Responded 403
                         (FailureHint ''Only SELECT queries are allowed for security reasons''
                            ''This interface is designed for data exploration, not data modification''),
                       [])
                  | ALLOWED \<Rightarrow>
                      (case poolQuery env pool q of
                         Inl error \<Rightarrow> (st, query_catch error, [PoolQuery pool q])
                       | Inr result \<Rightarrow> (st, query_success env result q, [PoolQuery pool q])))
             | other \<Rightarrow> (st, query_catch (TypeError ''query.trim is not a function''), [])))"

section \<open>POST /api/disconnect (server.js, lines 271 to 293)\<close>

text \<open>
  The pool is closed first and the entry deleted after the close has succeeded. The last
  branch is what \<^verbatim>\<open>connections.delete\<close> of a value that is not a string would do; it is
  never reached, since \<^verbatim>\<open>get\<close> finds a pool under strings only.
\<close>

definition disconnect_success :: outcome where
  "disconnect_success = Responded 200 (Disconnected ''Disconnected successfully'')"

definition disconnect :: "env \<Rightarrow> server \<Rightarrow> request_body \<Rightarrow> server \<times> outcome \<times> event list" where
  "disconnect env st body =
     (case map_get (connections st) (connectionId body) of
        None \<Rightarrow> (st, disconnect_success, [])
      | Some pool \<Rightarrow>
          (case poolEnd env pool of
             Some error \<Rightarrow>
               (st, Responded 500 (FailureDetails ''Error during disconnect'' (message error)),
                [PoolEnd pool])
           | None \<Rightarrow>
               (case connectionId body of
                  JStr cid \<Rightarrow>
                    (st\<lparr>connections := map_delete cid (connections st)\<rparr>, disconnect_success,
                     [PoolEnd pool, MapDelete cid])
                | other \<Rightarrow> (st, disconnect_success, [PoolEnd pool]))))"

section \<open>A process lifetime\<close>

text \<open>
  The requests of one process, served one after the other from the empty map, each with
  the answers the outside world gives during it. The health and schema handlers do not
  write the map and are left out.
\<close>

datatype endpoint = Connect | Query | Disconnect

fun handle :: "endpoint \<Rightarrow> env \<Rightarrow> server \<Rightarrow> request_body \<Rightarrow> server \<times> outcome \<times> event list" where
  "handle Connect env st body = connect env st body"
| "handle Query env st body = query_handler env st body"
| "handle Disconnect env st body = disconnect env st body"

fun run :: "server \<Rightarrow> (endpoint \<times> env \<times> request_body) list \<Rightarrow> server" where
  "run st [] = st"
| "run st ((ep, env, body) # rest) = run (fst (handle ep env st body)) rest"

text \<open>The identifier a response hands to the client, if it is that of a successful connect.\<close>

fun returnedId :: "outcome \<Rightarrow> string list" where
  "returnedId (Responded status (Connected m cid h d u)) = [cid]"
| "returnedId other = []"

fun returnedIds :: "server \<Rightarrow> (endpoint \<times> env \<times> request_body) list \<Rightarrow> string list" where
  "returnedIds st [] = []"
| "returnedIds st ((ep, env, body) # rest) =
     (case ep of Connect \<Rightarrow> returnedId (fst (snd (handle ep env st body))) | other \<Rightarrow> [])
     @ returnedIds (fst (handle ep env st body)) rest"

text \<open>A connect request reads the clock (line 56) when its parameters and its probe pass.\<close>

definition readsClock :: "endpoint \<times> env \<times> request_body \<Rightarrow> bool" where
  "readsClock step =
     (case step of (ep, env, body) \<Rightarrow>
        ep = Connect \<and> truthy (host body) \<and> truthy (database body) \<and>
        truthy (username body) \<and> truthy (password body) \<and>
        poolConnect env = None \<and> clientQuery env = None)"

definition clockReadings :: "(endpoint \<times> env \<times> request_body) list \<Rightarrow> nat list" where
  "clockReadings steps = map (\<lambda>(ep, env, body). dateNow env) (filter readsClock steps)"

text \<open>\<open>precedes a b evs\<close>: some \<open>a\<close> is logged and some \<open>b\<close> is logged after it.\<close>

fun precedes :: "event \<Rightarrow> event \<Rightarrow> event list \<Rightarrow> bool" where
  "precedes a b [] = False"
| "precedes a b (e # es) = ((e = a \<and> b \<in> set es) \<or> precedes a b es)"

section \<open>Concrete requests\<close>

definition ex_result :: query_result where
  "ex_result =
     \<lparr>rows = [[(''x'', JNum 1)]], rowCount = Some 1,
      resultFields = Some [\<lparr>name = ''x'', dataTypeID = 23, format = ''text''\<rparr>]\<rparr>"

definition ex_db_error :: js_error where
  "ex_db_error =
     \<lparr>kind = ''error'', message = ''relation missing does not exist'',
      code = Some ''42P01'', position = Some ''15''\<rparr>"

definition ex_end_error :: js_error where
  "ex_end_error =
     \<lparr>kind = ''Error'', message = ''Called end on pool more than once'',
      code = None, position = None\<rparr>"

text \<open>A world in which every call succeeds, one whose database rejects every query, and
  one in which no pool can be closed.\<close>

definition ex_env :: env where
  "ex_env =
     \<lparr>dateNow = 1700000000000, dateNowAfter = 1700000000007,
      toISOString = ''2023-11-14T22:13:20.007Z'',
      poolConnect = None, clientQuery = None, poolEnd = (\<lambda>pool. None),
      poolQuery = (\<lambda>pool sql. Inr ex_result)\<rparr>"

definition ex_env_rejecting :: env where
  "ex_env_rejecting = ex_env\<lparr>poolQuery := (\<lambda>pool sql. Inl ex_db_error)\<rparr>"

definition ex_env_unclosable :: env where
  "ex_env_unclosable = ex_env\<lparr>poolEnd := (\<lambda>pool. Some ex_end_error)\<rparr>"

definition ex_body :: "jsval \<Rightarrow> jsval \<Rightarrow> request_body" where
  "ex_body cid q =
     \<lparr>host = JStr ''db.example.com'', database = JStr ''shop'', username = JStr ''reader'',
      password = JStr ''secret'', connectionId = cid, query = q\<rparr>"

definition ex_server :: server where
  "ex_server = \<lparr>connections = [(''1700000000000'', 0)], pools = 1\<rparr>"

definition ex_env_later :: env where
  "ex_env_later = ex_env\<lparr>dateNow := 1700000000001\<rparr>"

definition ex_full_server :: server where
  "ex_full_server = \<lparr>connections = map (\<lambda>i. (toString i, i)) [0..<100], pools = 100\<rparr>"

section \<open>Facts about the string operations\<close>

lemma startsWith_iff: "startsWith s k \<longleftrightarrow> (\<exists>r. s = k @ r)"
  by (induction s k rule: startsWith.induct) auto

lemma includes_iff: "includes_str s k \<longleftrightarrow> (\<exists>p r. s = p @ k @ r)"
proof (induction s)
  case Nil
  then show ?case by auto
next
  case (Cons c cs)
  show ?case
  proof
    assume "includes_str (c # cs) k"
    then consider "startsWith (c # cs) k" | "includes_str cs k" by auto
    then show "\<exists>p r. c # cs = p @ k @ r"
    proof cases
      case 1
      then obtain r where "c # cs = k @ r" by (auto simp: startsWith_iff)
      then have "c # cs = [] @ k @ r" by simp
      then show ?thesis by blast
    next
      case 2
      then obtain p r where "cs = p @ k @ r" using Cons.IH by blast
      then have "c # cs = (c # p) @ k @ r" by simp
      then show ?thesis by blast
    qed
  next
    assume "\<exists>p r. c # cs = p @ k @ r"
    then obtain p r where eq: "c # cs = p @ k @ r" by blast
    show "includes_str (c # cs) k"
    proof (cases p)
      case Nil
      with eq have "startsWith (c # cs) k" by (auto simp: startsWith_iff)
      then show ?thesis by simp
    next
      case (Cons a p')
      with eq have "cs = p' @ k @ r" by simp
      then have "includes_str cs k" using Cons.IH by blast
      then show ?thesis by simp
    qed
  qed
qed

lemma some_iff: "some f xs \<longleftrightarrow> (\<exists>x \<in> set xs. f x)"
  by (induction xs) auto

lemmas gate_eval =
  classify_def trimmedQuery_def trim_def toLowerCase_def isWhiteSpace_def lowerChar_def
  char_of_def bit_Suc_0_iff containsDangerous_def dangerousKeywords_def

lemmas ex_eval =
  ex_env_def ex_env_rejecting_def ex_env_unclosable_def ex_body_def ex_server_def
  ex_result_def ex_db_error_def ex_end_error_def

lemma trimmedQuery_Nil: "trimmedQuery [] = []"
  by (simp add: trimmedQuery_def trim_def toLowerCase_def)

lemma startsWith_nonempty: "startsWith (trimmedQuery q) (k # ks) \<Longrightarrow> q \<noteq> []"
  by (cases q) (auto simp: trimmedQuery_Nil)

lemma containsDangerous_iff:
  "containsDangerous q \<longleftrightarrow>
     (\<exists>k \<in> {''drop'', ''delete'', ''truncate'', ''alter'', ''create'', ''insert'', ''update''}.
        \<exists>p r. trimmedQuery q = p @ k @ r)"
  by (simp add: containsDangerous_def dangerousKeywords_def includes_iff)

text \<open>What the query handler does once its two parameter checks and the lookup have passed.\<close>

lemma query_handler_gate:
  assumes "truthy (connectionId body)" and "query body = JStr q" and "q \<noteq> []"
    and "map_get (connections st) (connectionId body) = Some pool"
  shows "query_handler env st body =
     (case classify q of
        REJECTED \<Rightarrow>
          (st, Responded 403
             (FailureHint ''Only SELECT queries are allowed for security reasons''
                ''This interface is designed for data exploration, not data modification''),
           [])
      | ALLOWED \<Rightarrow>
          (case poolQuery env pool q of
             Inl error \<Rightarrow> (st, query_catch error, [PoolQuery pool q])
           | Inr result \<Rightarrow> (st, query_success env result q, [PoolQuery pool q])))"
  using assms by (simp add: query_handler_def)

lemma map_of_map_delete: "map_of (map_delete k xs) k = None"
  by (induction xs) (auto simp: map_delete_def)

lemma map_of_map_delete_other: "k' \<noteq> k \<Longrightarrow> map_of (map_delete k xs) k' = map_of xs k'"
  by (induction xs) (auto simp: map_delete_def)

lemma map_get_Some_JStr: "map_get m v = Some pool \<Longrightarrow> \<exists>s. v = JStr s \<and> map_of m s = Some pool"
  by (cases v) auto

lemma query_catch_uncaught: "query_catch error = Uncaught (ReferenceError ''query is not defined'')"
  by (simp add: query_catch_def resolve_def catch_scope_def)

section \<open>Facts about the map and the identifiers\<close>

lemma digitChar_inj: "a < 10 \<Longrightarrow> b < 10 \<Longrightarrow> digitChar a = digitChar b \<Longrightarrow> a = b"
proof -
  assume a: "a < 10" and b: "b < 10" and eq: "digitChar a = digitChar b"
  have d: "distinct ''0123456789''" by simp
  have l: "length ''0123456789'' = 10" by simp
  from eq have "''0123456789'' ! a = ''0123456789'' ! b" by (simp only: digitChar_def)
  with d l a b show "a = b" by (simp only: nth_eq_iff_index_eq)
qed

lemma toString_small: "n < 10 \<Longrightarrow> toString n = [digitChar n]"
  by (subst toString.simps) simp

lemma toString_large:
  "\<not> n < 10 \<Longrightarrow> toString n = toString (n div 10) @ [digitChar (n mod 10)]"
  by (subst toString.simps) simp

lemma toString_not_Nil: "toString n \<noteq> []"
  by (cases "n < 10") (simp_all add: toString_small toString_large)

lemma toString_inj: "toString n = toString m \<Longrightarrow> n = m"
proof (induction n arbitrary: m rule: toString.induct)
  case (1 n)
  show ?case
  proof (cases "n < 10")
    case nsmall: True
    show ?thesis
    proof (cases "m < 10")
      case True
      with nsmall "1.prems" show ?thesis
        by (simp add: toString_small digitChar_inj)
    next
      case False
      with nsmall "1.prems" have "toString (m div 10) = []"
        by (simp add: toString_small toString_large)
      then show ?thesis by (simp add: toString_not_Nil)
    qed
  next
    case nlarge: False
    show ?thesis
    proof (cases "m < 10")
      case True
      with nlarge "1.prems" have "toString (n div 10) = []"
        by (simp add: toString_small toString_large)
      then show ?thesis by (simp add: toString_not_Nil)
    next
      case False
      with nlarge "1.prems" have eq: "toString (n div 10) = toString (m div 10)"
        and dg: "digitChar (n mod 10) = digitChar (m mod 10)"
        by (simp_all add: toString_large)
      from eq have "n div 10 = m div 10"
        using "1.IH" nlarge by blast
      moreover from dg have "n mod 10 = m mod 10"
        by (simp add: digitChar_inj)
      ultimately show ?thesis
        by (metis div_mult_mod_eq)
    qed
  qed
qed

lemma map_set_map_fst:
  "map fst (map_set k v m) = (if k \<in> set (map fst m) then map fst m else map fst m @ [k])"
  by (induction m) fastforce+

lemma map_set_keys: "fst ` set (map_set k v m) = insert k (fst ` set m)"
proof -
  have "set (map fst (map_set k v m)) = insert k (set (map fst m))"
    by (simp only: map_set_map_fst) auto
  then show ?thesis by simp
qed

lemma map_set_fresh: "k \<notin> fst ` set m \<Longrightarrow> map_set k v m = m @ [(k, v)]"
  by (induction m) auto

lemma map_of_map_set: "map_of (map_set k v m) k = Some v"
  by (induction m) auto

lemma map_set_distinct: "distinct (map fst m) \<Longrightarrow> distinct (map fst (map_set k v m))"
  by (simp add: map_set_map_fst)

lemma map_delete_keys: "fst ` set (map_delete k m) = fst ` set m - {k}"
  by (induction m) (auto simp: map_delete_def)

lemma map_delete_distinct: "distinct (map fst m) \<Longrightarrow> distinct (map fst (map_delete k m))"
  by (induction m) (auto simp: map_delete_def)

lemma map_delete_head:
  "k \<notin> fst ` set rest \<Longrightarrow> map_delete k ((k, v) # rest) = rest"
  by (induction rest) (auto simp: map_delete_def)

section \<open>Facts about the connect handler and about runs\<close>

lemma map_delete_keys_subset: "fst ` set (map_delete k m) \<subseteq> fst ` set m"
  by (simp add: map_delete_keys)

lemma cleanup_connections_Inl:
  "cleanup env st = Inl (st', evs) \<Longrightarrow>
     connections st' = connections st \<or>
     connections st' = map_delete (fst (hd (connections st))) (connections st)"
  by (auto simp: cleanup_def split: if_splits list.splits option.splits)

lemma cleanup_keys_Inl:
  assumes "cleanup env st = Inl (st', evs)"
  shows "fst ` set (connections st') \<subseteq> fst ` set (connections st)"
proof -
  from cleanup_connections_Inl [OF assms] show ?thesis
  proof
    assume "connections st' = connections st"
    then show ?thesis by simp
  next
    assume "connections st' = map_delete (fst (hd (connections st))) (connections st)"
    then show ?thesis by (simp only: map_delete_keys_subset)
  qed
qed

lemma cleanup_keys_Inr:
  "cleanup env st = Inr (st', error, evs) \<Longrightarrow> connections st' = connections st"
  by (auto simp: cleanup_def split: if_splits list.splits option.splits)

lemma connect_not_reading:
  "\<not> readsClock (Connect, env, body) \<Longrightarrow>
     connections (fst (connect env st body)) = connections st \<and>
     returnedId (fst (snd (connect env st body))) = []"
  by (auto simp: connect_def readsClock_def connect_catch_def Let_def split: option.splits)

lemma connect_reading:
  assumes "readsClock (Connect, env, body)"
  shows "connect env st body =
     (case cleanup env
        (st\<lparr>pools := Suc (pools st),
            connections := map_set (toString (dateNow env)) (pools st) (connections st)\<rparr>) of
        Inr (st3, error, evs') \<Rightarrow>
          (st3, connect_catch error,
           [NewPool (pools st), PoolConnect (pools st), ClientQuery (pools st) ''SELECT NOW()'',
            ClientRelease (pools st), MapSet (toString (dateNow env)) (pools st)] @ evs')
      | Inl (st3, evs') \<Rightarrow>
          (st3, connect_success (toString (dateNow env)) body,
           [NewPool (pools st), PoolConnect (pools st), ClientQuery (pools st) ''SELECT NOW()'',
            ClientRelease (pools st), MapSet (toString (dateNow env)) (pools st)] @ evs'))"
  using assms by (simp add: connect_def readsClock_def Let_def)

lemma returnedId_connect:
  "returnedId (fst (snd (connect env st body))) = [] \<or>
   (readsClock (Connect, env, body) \<and>
    returnedId (fst (snd (connect env st body))) = [toString (dateNow env)])"
proof (cases "readsClock (Connect, env, body)")
  case False
  then show ?thesis by (simp add: connect_not_reading)
next
  case True
  then show ?thesis
    by (simp add: connect_reading [OF True] connect_catch_def connect_success_def
        split: sum.splits prod.splits)
qed

lemma connect_keys:
  "fst ` set (connections (fst (connect env st body))) \<subseteq>
     fst ` set (connections st) \<union>
     (if readsClock (Connect, env, body) then {toString (dateNow env)} else {})"
proof (cases "readsClock (Connect, env, body)")
  case False
  then show ?thesis by (simp add: connect_not_reading)
next
  case True
  show ?thesis
  proof (cases "cleanup env
        (st\<lparr>pools := Suc (pools st),
            connections := map_set (toString (dateNow env)) (pools st) (connections st)\<rparr>)")
    case (Inl a)
    obtain st3 evs where a: "a = (st3, evs)" by (cases a)
    from cleanup_keys_Inl [OF Inl [unfolded a]] show ?thesis
      by (auto simp: connect_reading [OF True] Inl a map_set_keys True)
  next
    case (Inr b)
    obtain st3 error evs where b: "b = (st3, error, evs)" by (cases b)
    from cleanup_keys_Inr [OF Inr [unfolded b]] show ?thesis
      by (auto simp: connect_reading [OF True] Inr b map_set_keys True)
  qed
qed

lemma query_handler_state: "fst (query_handler env st body) = st"
  by (auto simp: query_handler_def split: option.splits jsval.splits verdict.splits sum.splits)

lemma disconnect_keys:
  "fst ` set (connections (fst (disconnect env st body))) \<subseteq> fst ` set (connections st)"
  by (auto simp: disconnect_def map_delete_keys split: option.splits jsval.splits)

lemma handle_keys:
  "fst ` set (connections (fst (handle ep env st body))) \<subseteq>
     fst ` set (connections st) \<union>
     (if readsClock (ep, env, body) then {toString (dateNow env)} else {})"
proof (cases ep)
  case Connect
  then show ?thesis using connect_keys [of env st body] by simp
next
  case Query
  then show ?thesis by (simp add: query_handler_state)
next
  case Disconnect
  then show ?thesis using disconnect_keys [of env st body] by auto
qed

lemma clockReadings_Cons:
  "clockReadings ((ep, env, body) # rest) =
     (if readsClock (ep, env, body) then [dateNow env] else []) @ clockReadings rest"
  by (simp add: clockReadings_def)

lemma clockReadings_append:
  "clockReadings (xs @ ys) = clockReadings xs @ clockReadings ys"
  by (simp add: clockReadings_def)

lemma run_keys:
  "fst ` set (connections (run st steps)) \<subseteq>
     fst ` set (connections st) \<union> toString ` set (clockReadings steps)"
proof (induction steps arbitrary: st)
  case Nil
  then show ?case by simp
next
  case (Cons step steps)
  obtain ep env body where step: "step = (ep, env, body)" by (cases step)
  have "fst ` set (connections (run st (step # steps))) \<subseteq>
      fst ` set (connections (fst (handle ep env st body))) \<union> toString ` set (clockReadings steps)"
    using Cons.IH [of "fst (handle ep env st body)"] by (simp add: step)
  also have "\<dots> \<subseteq> (fst ` set (connections st) \<union>
      (if readsClock (ep, env, body) then {toString (dateNow env)} else {}))
      \<union> toString ` set (clockReadings steps)"
    using handle_keys [of ep env st body] by blast
  also have "\<dots> \<subseteq> fst ` set (connections st) \<union> toString ` set (clockReadings (step # steps))"
    by (auto simp: step clockReadings_Cons)
  finally show ?case .
qed

lemma returnedIds_subset:
  "set (returnedIds st steps) \<subseteq> toString ` set (clockReadings steps)"
proof (induction steps arbitrary: st)
  case Nil
  then show ?case by simp
next
  case (Cons step steps)
  obtain ep env body where step: "step = (ep, env, body)" by (cases step)
  show ?case
    using Cons.IH [of "fst (handle ep env st body)"]
    using returnedId_connect [of env st body]
    by (cases ep) (auto simp: step clockReadings_Cons)
qed

lemma returnedIds_distinct:
  "distinct (clockReadings steps) \<Longrightarrow> distinct (returnedIds st steps)"
proof (induction steps arbitrary: st)
  case Nil
  then show ?case by simp
next
  case (Cons step steps)
  obtain ep env body where step: "step = (ep, env, body)" by (cases step)
  from Cons.prems have d: "distinct (clockReadings steps)"
    by (simp add: step clockReadings_Cons)
  have rest: "distinct (returnedIds (fst (handle ep env st body)) steps)"
    using Cons.IH [OF d] .
  show ?case
  proof (cases "ep = Connect \<and> returnedId (fst (snd (connect env st body))) \<noteq> []")
    case False
    then show ?thesis using rest by (cases ep) (auto simp: step)
  next
    case True
    then have rc: "readsClock (ep, env, body)"
      and rid: "returnedId (fst (snd (connect env st body))) = [toString (dateNow env)]"
      using returnedId_connect [of env st body] by auto
    from Cons.prems rc have "dateNow env \<notin> set (clockReadings steps)"
      by (simp add: step clockReadings_Cons)
    then have "toString (dateNow env) \<notin> toString ` set (clockReadings steps)"
      using toString_inj by blast
    then have "toString (dateNow env) \<notin> set (returnedIds (fst (handle ep env st body)) steps)"
      using returnedIds_subset by blast
    then show ?thesis using rest True rid by (simp add: step)
  qed
qed

lemma connect_fresh_resolves:
  assumes rc: "readsClock (Connect, env, body)"
    and fresh: "toString (dateNow env) \<notin> fst ` set (connections st)"
    and ok: "returnedId (fst (snd (connect env st body))) = [cid]"
  shows "cid = toString (dateNow env) \<and>
         map_of (connections (fst (connect env st body))) cid = Some (pools st) \<and>
         NewPool (pools st) \<in> set (snd (snd (connect env st body)))"
proof -
  let ?k = "toString (dateNow env)"
  let ?st2 = "st\<lparr>pools := Suc (pools st), connections := connections st @ [(?k, pools st)]\<rparr>"
  have st2: "st\<lparr>pools := Suc (pools st),
      connections := map_set ?k (pools st) (connections st)\<rparr> = ?st2"
    using fresh by (simp add: map_set_fresh)
  have "map_of (connections st) ?k = None"
    using fresh by (simp add: map_of_eq_None_iff)
  then have look: "map_of (connections st @ [(?k, pools st)]) ?k = Some (pools st)"
    by (simp add: map_add_def)
  from ok have cid: "cid = ?k"
    using returnedId_connect [of env st body] by auto
  have ev: "NewPool (pools st) \<in> set (snd (snd (connect env st body)))"
    by (simp add: connect_reading [OF rc] split: sum.splits prod.splits)
  have "map_of (connections (fst (connect env st body))) ?k = Some (pools st)"
  proof (cases "cleanup env ?st2")
    case (Inr b)
    then have "returnedId (fst (snd (connect env st body))) = []"
      by (auto simp: connect_reading [OF rc] st2 connect_catch_def split: prod.splits)
    with ok show ?thesis by simp
  next
    case (Inl a)
    obtain st3 evs where a: "a = (st3, evs)" by (cases a)
    have st3: "fst (connect env st body) = st3"
      by (simp add: connect_reading [OF rc] st2 Inl a)
    show ?thesis
    proof (cases "length (connections ?st2) > 100")
      case False
      with Inl a have "st3 = ?st2" by (simp add: cleanup_def)
      then show ?thesis using look by (simp add: st3)
    next
      case True
      then obtain k v rest where m: "connections st = (k, v) # rest"
        by (cases "connections st") auto
      from fresh m have ne: "k \<noteq> ?k" by auto
      from Inl a True m have "connections st3 = map_delete k (connections st @ [(?k, pools st)])"
        by (auto simp: cleanup_def split: option.splits)
      then show ?thesis
        using look ne by (simp add: st3 map_of_map_delete_other)
    qed
  qed
  with cid ev show ?thesis by simp
qed

lemma cleanup_distinct_Inl:
  assumes "cleanup env st = Inl (st', evs)" and "distinct (map fst (connections st))"
  shows "distinct (map fst (connections st'))"
  using cleanup_connections_Inl [OF assms(1)] assms(2) by (auto simp: map_delete_distinct)

lemma connect_distinct:
  assumes "distinct (map fst (connections st))"
  shows "distinct (map fst (connections (fst (connect env st body))))"
proof (cases "readsClock (Connect, env, body)")
  case False
  with assms show ?thesis by (simp add: connect_not_reading)
next
  case True
  let ?st2 = "st\<lparr>pools := Suc (pools st),
      connections := map_set (toString (dateNow env)) (pools st) (connections st)\<rparr>"
  have d2: "distinct (map fst (connections ?st2))"
    using assms by (simp add: map_set_distinct)
  show ?thesis
  proof (cases "cleanup env ?st2")
    case (Inl a)
    obtain st3 evs where a: "a = (st3, evs)" by (cases a)
    from cleanup_distinct_Inl [OF Inl [unfolded a] d2] show ?thesis
      by (simp add: connect_reading [OF True] Inl a)
  next
    case (Inr b)
    obtain st3 error evs where b: "b = (st3, error, evs)" by (cases b)
    from cleanup_keys_Inr [OF Inr [unfolded b]] d2 show ?thesis
      by (simp add: connect_reading [OF True] Inr b)
  qed
qed

lemma disconnect_distinct:
  "distinct (map fst (connections st)) \<Longrightarrow>
     distinct (map fst (connections (fst (disconnect env st body))))"
  by (auto simp: disconnect_def map_delete_distinct split: option.splits jsval.splits)

lemma run_distinct:
  "distinct (map fst (connections st)) \<Longrightarrow> distinct (map fst (connections (run st steps)))"
proof (induction steps arbitrary: st)
  case Nil
  then show ?case by simp
next
  case (Cons step steps)
  obtain ep env body where step: "step = (ep, env, body)" by (cases step)
  have "distinct (map fst (connections (fst (handle ep env st body))))"
    using Cons.prems
    by (cases ep) (simp_all add: connect_distinct query_handler_state disconnect_distinct)
  then show ?case using Cons.IH by (simp add: step)
qed

lemma reachable_distinct: "distinct (map fst (connections (run initial steps)))"
  by (rule run_distinct) (simp add: initial_def)

lemma connect_evicts_oldest:
  assumes rc: "readsClock (Connect, env, body)"
    and len: "length (connections st) \<ge> 100"
    and m: "connections st = (oldestKey, oldPool) # rest"
    and d: "distinct (map fst (connections st))"
    and fresh: "toString (dateNow env) \<notin> fst ` set (connections st)"
    and close: "poolEnd env oldPool = None"
  shows "connect env st body =
     (st\<lparr>pools := Suc (pools st),
         connections := rest @ [(toString (dateNow env), pools st)]\<rparr>,
      connect_success (toString (dateNow env)) body,
      [NewPool (pools st), PoolConnect (pools st), ClientQuery (pools st) ''SELECT NOW()'',
       ClientRelease (pools st), MapSet (toString (dateNow env)) (pools st),
       PoolEnd oldPool, MapDelete oldestKey])"
proof -
  let ?k = "toString (dateNow env)"
  have "map_set ?k (pools st) (connections st) = connections st @ [(?k, pools st)]"
    using fresh by (rule map_set_fresh)
  then have set: "map_set ?k (pools st) (connections st) =
      (oldestKey, oldPool) # rest @ [(?k, pools st)]"
    by (simp only: m append_Cons)
  have "?k \<noteq> oldestKey"
    using fresh [unfolded m] by simp
  then have k1: "oldestKey \<noteq> ?k"
    by (rule not_sym)
  have k2: "oldestKey \<notin> fst ` set rest"
    using d m by simp
  have "oldestKey \<notin> fst ` set (rest @ [(?k, pools st)])"
    using k1 k2 by simp
  then have del: "map_delete oldestKey ((oldestKey, oldPool) # rest @ [(?k, pools st)])
      = rest @ [(?k, pools st)]"
    by (rule map_delete_head)
  have "cleanup env (st\<lparr>pools := Suc (pools st),
      connections := (oldestKey, oldPool) # rest @ [(?k, pools st)]\<rparr>) =
    Inl (st\<lparr>pools := Suc (pools st), connections := rest @ [(?k, pools st)]\<rparr>,
         [PoolEnd oldPool, MapDelete oldestKey])"
    using len m close by (simp add: cleanup_def del)
  then show ?thesis
    by (simp add: connect_reading [OF rc] set)
qed

lemma connect_eviction_close_fails:
  assumes rc: "readsClock (Connect, env, body)"
    and len: "length (connections st) \<ge> 100"
    and m: "connections st = (oldestKey, oldPool) # rest"
    and fresh: "toString (dateNow env) \<notin> fst ` set (connections st)"
    and close: "poolEnd env oldPool = Some error"
  shows "connect env st body =
     (st\<lparr>pools := Suc (pools st),
         connections := connections st @ [(toString (dateNow env), pools st)]\<rparr>,
      connect_catch error,
      [NewPool (pools st), PoolConnect (pools st), ClientQuery (pools st) ''SELECT NOW()'',
       ClientRelease (pools st), MapSet (toString (dateNow env)) (pools st),
       PoolEnd oldPool])"
proof -
  let ?k = "toString (dateNow env)"
  have set: "map_set ?k (pools st) (connections st) = connections st @ [(?k, pools st)]"
    using fresh by (rule map_set_fresh)
  have "cleanup env (st\<lparr>pools := Suc (pools st),
      connections := connections st @ [(?k, pools st)]\<rparr>) =
    Inr (st\<lparr>pools := Suc (pools st), connections := connections st @ [(?k, pools st)]\<rparr>,
         error, [PoolEnd oldPool])"
    using len close by (simp add: cleanup_def m)
  then show ?thesis
    by (simp add: connect_reading [OF rc] set)
qed

lemma length_map_set: "length (map_set k v m) \<le> Suc (length m)"
  by (induction m) auto

lemma connect_below_capacity:
  assumes rc: "readsClock (Connect, env, body)"
    and len: "length (connections st) < 100"
  shows "connect env st body =
     (st\<lparr>pools := Suc (pools st),
         connections := map_set (toString (dateNow env)) (pools st) (connections st)\<rparr>,
      connect_success (toString (dateNow env)) body,
      [NewPool (pools st), PoolConnect (pools st), ClientQuery (pools st) ''SELECT NOW()'',
       ClientRelease (pools st), MapSet (toString (dateNow env)) (pools st)])"
proof -
  have "length (map_set (toString (dateNow env)) (pools st) (connections st)) \<le> 100"
    using len length_map_set [of "toString (dateNow env)" "pools st" "connections st"] by simp
  then show ?thesis
    by (simp add: connect_reading [OF rc] cleanup_def)
qed

lemma not_readsClock_Disconnect: "\<not> readsClock (Disconnect, env, body)"
  by (simp add: readsClock_def)

section \<open>Facts about the concrete requests\<close>

lemma ex_full_head:
  "connections ex_full_server = (''0'', 0) # map (\<lambda>i. (toString i, i)) [Suc 0..<100]"
proof -
  have "[0..<100] = 0 # [Suc 0..<100]"
    by (rule upt_conv_Cons) simp
  then show ?thesis
    by (simp add: ex_full_server_def toString_small digitChar_def)
qed

lemma ex_full_length: "length (connections ex_full_server) = 100"
  by (simp add: ex_full_server_def)

lemma ex_full_keys: "map fst (connections ex_full_server) = map toString [0..<100]"
  by (simp add: ex_full_server_def comp_def)

lemma ex_full_distinct: "distinct (map fst (connections ex_full_server))"
proof -
  have "inj_on toString (set [0..<100])"
    by (rule inj_onI) (rule toString_inj)
  then show ?thesis
    by (simp only: ex_full_keys distinct_map distinct_upt)
qed

lemma ex_full_fresh: "toString 1700000000000 \<notin> fst ` set (connections ex_full_server)"
proof
  assume "toString 1700000000000 \<in> fst ` set (connections ex_full_server)"
  then have "toString 1700000000000 \<in> set (map fst (connections ex_full_server))"
    by simp
  then have "toString 1700000000000 \<in> toString ` set [0..<100]"
    by (simp only: ex_full_keys set_map)
  then obtain i where "i \<in> set [0..<100]" and "toString 1700000000000 = toString i"
    by blast
  then show False
    using toString_inj [of 1700000000000 i] by simp
qed

lemma ex_readsClock: "readsClock (Connect, ex_env, ex_body JUndefined JUndefined)"
  by (simp add: readsClock_def ex_env_def ex_body_def)

lemma ex_toString: "toString 1700000000000 = ''1700000000000''"
  by (simp add: toString.simps digitChar_def)

lemma ex_readsClock_later: "readsClock (Connect, ex_env_later, ex_body JUndefined JUndefined)"
  by (simp add: readsClock_def ex_env_later_def ex_env_def ex_body_def)

lemma ex_toString_later: "toString 1700000000001 = ''1700000000001''"
  by (simp add: toString.simps digitChar_def)

lemma clockReadings_Nil: "clockReadings [] = []"
  by (simp add: clockReadings_def)

lemma ex_now: "dateNow ex_env = 1700000000000"
  by (simp add: ex_env_def)

lemma ex_now_later: "dateNow ex_env_later = 1700000000001"
  by (simp add: ex_env_later_def)

lemma ex_first_connect:
  "connect ex_env initial (ex_body JUndefined JUndefined) =
     (ex_server, connect_success ''1700000000000'' (ex_body JUndefined JUndefined),
      [NewPool 0, PoolConnect 0, ClientQuery 0 ''SELECT NOW()'', ClientRelease 0,
       MapSet ''1700000000000'' 0])"
proof -
  have "dateNow ex_env = 1700000000000"
    by (simp add: ex_env_def)
  then show ?thesis
    by (simp add: connect_below_capacity [OF ex_readsClock] initial_def ex_server_def
        ex_toString)
qed

lemma ex_disconnect:
  "disconnect ex_env ex_server (ex_body (JStr ''1700000000000'') JUndefined) =
     (\<lparr>connections = [], pools = 1\<rparr>, disconnect_success,
      [PoolEnd 0, MapDelete ''1700000000000''])"
  by (simp add: disconnect_def ex_server_def ex_body_def ex_env_def map_delete_def)

lemma ex_second_connect:
  "connect ex_env_later \<lparr>connections = [], pools = Suc 0\<rparr> (ex_body JUndefined JUndefined) =
     (\<lparr>connections = [(''1700000000001'', 1)], pools = 2\<rparr>,
      connect_success ''1700000000001'' (ex_body JUndefined JUndefined),
      [NewPool 1, PoolConnect 1, ClientQuery 1 ''SELECT NOW()'', ClientRelease 1,
       MapSet ''1700000000001'' 1])"
proof -
  have "dateNow ex_env_later = 1700000000001"
    by (simp add: ex_env_later_def)
  then show ?thesis
    by (simp add: connect_below_capacity [OF ex_readsClock_later] ex_toString_later)
qed

section \<open>The query gate\<close>

text \<open>
  C1. A text whose normal form (trimmed, then lower-cased) starts with \<open>select\<close> or
  \<open>with\<close> is classified \<open>ALLOWED\<close>, whatever follows the prefix; and the query handler,
  given an identifier that resolves to a pool, sends exactly that text to the pool.
\<close>

theorem gate_prefix_allow:
  assumes "startsWith (trimmedQuery q) ''select'' \<or> startsWith (trimmedQuery q) ''with''"
  shows "classify q = ALLOWED \<and>
    (truthy (connectionId body) \<and> query body = JStr q \<and>
     map_get (connections st) (connectionId body) = Some pool
     \<longrightarrow> snd (snd (query_handler env st body)) = [PoolQuery pool q])"
proof -
  have allowed: "classify q = ALLOWED"
    using assms by (auto simp: classify_def)
  have "q \<noteq> []"
    using assms startsWith_nonempty by blast
  then show ?thesis
    using allowed by (auto simp: query_handler_gate split: sum.splits)
qed

theorem gate_prefix_allow_witness:
  "startsWith (trimmedQuery ''SELECT * FROM t; -- drop table x'') ''select'' \<and>
   classify ''SELECT * FROM t; -- drop table x'' = ALLOWED \<and>
   snd (snd (query_handler ex_env ex_server
     (ex_body (JStr ''1700000000000'') (JStr ''SELECT * FROM t; -- drop table x''))))
   = [PoolQuery 0 ''SELECT * FROM t; -- drop table x'']"
  using gate_prefix_allow [where q = "''SELECT * FROM t; -- drop table x''"
      and body = "ex_body (JStr ''1700000000000'') (JStr ''SELECT * FROM t; -- drop table x'')"
      and st = ex_server and pool = 0 and env = ex_env]
  by (simp add: gate_eval ex_body_def ex_server_def)

text \<open>
  C2. A text whose normal form starts with neither \<open>select\<close> nor \<open>with\<close> is classified
  \<open>REJECTED\<close> exactly when its normal form contains one of the seven keywords as a
  substring, and \<open>ALLOWED\<close> otherwise. On a rejected text the handler answers 403 and
  sends nothing to the pool; an allowed, non-empty text is sent to the pool.
\<close>

theorem gate_blocklist:
  assumes "\<not> startsWith (trimmedQuery q) ''select''"
    and "\<not> startsWith (trimmedQuery q) ''with''"
  shows "(classify q = REJECTED \<longleftrightarrow>
            (\<exists>k \<in> {''drop'', ''delete'', ''truncate'', ''alter'', ''create'', ''insert'',
                     ''update''}. \<exists>p r. trimmedQuery q = p @ k @ r)) \<and>
         (classify q = ALLOWED \<longleftrightarrow>
            \<not> (\<exists>k \<in> {''drop'', ''delete'', ''truncate'', ''alter'', ''create'', ''insert'',
                     ''update''}. \<exists>p r. trimmedQuery q = p @ k @ r)) \<and>
         (truthy (connectionId body) \<and> query body = JStr q \<and> q \<noteq> [] \<and>
          map_get (connections st) (connectionId body) = Some pool
          \<longrightarrow> (if classify q = REJECTED
               then snd (query_handler env st body) =
                 (Responded 403
                    (FailureHint ''Only SELECT queries are allowed for security reasons''
                       ''This interface is designed for data exploration, not data modification''),
                  [])
               else snd (snd (query_handler env st body)) = [PoolQuery pool q]))"
proof (intro conjI)
  have cls: "classify q = (if containsDangerous q then REJECTED else ALLOWED)"
    using assms by (simp add: classify_def)
  have "classify q = REJECTED \<longleftrightarrow> containsDangerous q"
    using cls by simp
  then show "classify q = REJECTED \<longleftrightarrow>
            (\<exists>k \<in> {''drop'', ''delete'', ''truncate'', ''alter'', ''create'', ''insert'',
                     ''update''}. \<exists>p r. trimmedQuery q = p @ k @ r)"
    by (simp only: containsDangerous_iff)
  have "classify q = ALLOWED \<longleftrightarrow> \<not> containsDangerous q"
    using cls by simp
  then show "classify q = ALLOWED \<longleftrightarrow>
            \<not> (\<exists>k \<in> {''drop'', ''delete'', ''truncate'', ''alter'', ''create'', ''insert'',
                     ''update''}. \<exists>p r. trimmedQuery q = p @ k @ r)"
    by (simp only: containsDangerous_iff)
  show "truthy (connectionId body) \<and> query body = JStr q \<and> q \<noteq> [] \<and>
          map_get (connections st) (connectionId body) = Some pool
          \<longrightarrow> (if classify q = REJECTED
               then snd (query_handler env st body) =
                 (Responded 403
                    (FailureHint ''Only SELECT queries are allowed for security reasons''
                       ''This interface is designed for data exploration, not data modification''),
                  [])
               else snd (snd (query_handler env st body)) = [PoolQuery pool q])"
    by (cases "classify q") (auto simp: query_handler_gate split: sum.splits)
qed

theorem gate_blocklist_witness:
  "\<not> startsWith (trimmedQuery ''  UPDATE users SET x=1'') ''select'' \<and>
   \<not> startsWith (trimmedQuery ''  UPDATE users SET x=1'') ''with'' \<and>
   classify ''  UPDATE users SET x=1'' = REJECTED \<and>
   snd (query_handler ex_env ex_server
     (ex_body (JStr ''1700000000000'') (JStr ''  UPDATE users SET x=1''))) =
     (Responded 403
        (FailureHint ''Only SELECT queries are allowed for security reasons''
           ''This interface is designed for data exploration, not data modification''),
      []) \<and>
   \<not> startsWith (trimmedQuery ''explain select 1'') ''select'' \<and>
   \<not> startsWith (trimmedQuery ''explain select 1'') ''with'' \<and>
   classify ''explain select 1'' = ALLOWED \<and>
   snd (snd (query_handler ex_env ex_server
     (ex_body (JStr ''1700000000000'') (JStr ''explain select 1'')))) =
     [PoolQuery 0 ''explain select 1'']"
  using gate_blocklist [where q = "''  UPDATE users SET x=1''"
      and body = "ex_body (JStr ''1700000000000'') (JStr ''  UPDATE users SET x=1'')"
      and st = ex_server and pool = 0 and env = ex_env]
    gate_blocklist [where q = "''explain select 1''"
      and body = "ex_body (JStr ''1700000000000'') (JStr ''explain select 1'')"
      and st = ex_server and pool = 0 and env = ex_env]
  by (simp add: gate_eval ex_body_def ex_server_def)

section \<open>Connection identifiers\<close>

text \<open>
  C3 (amended). In a process lifetime in which the connect requests that read the clock
  read pairwise different values, the identifiers handed out by successful connect
  requests are pairwise different, whether or not their entries are still held; and the
  identifier a successful connect request hands out resolves, right after the request, to
  the pool which that request constructed.
\<close>

theorem connection_ids_unique_if_clock_distinct:
  assumes "distinct (clockReadings steps)"
  shows "distinct (returnedIds initial steps) \<and>
    (steps = before @ (Connect, env, body) # after \<and>
     returnedId (fst (snd (connect env (run initial before) body))) = [cid]
     \<longrightarrow> map_get (connections (fst (connect env (run initial before) body))) (JStr cid)
           = Some (pools (run initial before)) \<and>
         NewPool (pools (run initial before))
           \<in> set (snd (snd (connect env (run initial before) body))))"
proof (rule conjI)
  show "distinct (returnedIds initial steps)"
    using assms by (rule returnedIds_distinct)
next
  show "steps = before @ (Connect, env, body) # after \<and>
     returnedId (fst (snd (connect env (run initial before) body))) = [cid]
     \<longrightarrow> map_get (connections (fst (connect env (run initial before) body))) (JStr cid)
           = Some (pools (run initial before)) \<and>
         NewPool (pools (run initial before))
           \<in> set (snd (snd (connect env (run initial before) body)))"
  proof (rule impI)
  assume h: "steps = before @ (Connect, env, body) # after \<and>
     returnedId (fst (snd (connect env (run initial before) body))) = [cid]"
  then have rc: "readsClock (Connect, env, body)"
    using returnedId_connect [of env "run initial before" body] by auto
  from assms h rc have "dateNow env \<notin> set (clockReadings before)"
    by (auto simp: clockReadings_append clockReadings_Cons)
  then have "toString (dateNow env) \<notin> toString ` set (clockReadings before)"
    using toString_inj by blast
  moreover have "fst ` set (connections (run initial before)) \<subseteq>
      toString ` set (clockReadings before)"
    using run_keys [of initial before] by (simp add: initial_def)
  ultimately have fresh: "toString (dateNow env) \<notin> fst ` set (connections (run initial before))"
    by blast
  from h have ok: "returnedId (fst (snd (connect env (run initial before) body))) = [cid]"
    by simp
  from connect_fresh_resolves [OF rc fresh ok]
  show "map_get (connections (fst (connect env (run initial before) body))) (JStr cid)
           = Some (pools (run initial before)) \<and>
         NewPool (pools (run initial before))
           \<in> set (snd (snd (connect env (run initial before) body)))"
    by auto
  qed
qed

theorem connection_ids_unique_if_clock_distinct_witness:
  "distinct (clockReadings
     [(Connect, ex_env, ex_body JUndefined JUndefined),
      (Disconnect, ex_env, ex_body (JStr ''1700000000000'') JUndefined),
      (Connect, ex_env_later, ex_body JUndefined JUndefined)]) \<and>
   returnedIds initial
     [(Connect, ex_env, ex_body JUndefined JUndefined),
      (Disconnect, ex_env, ex_body (JStr ''1700000000000'') JUndefined),
      (Connect, ex_env_later, ex_body JUndefined JUndefined)]
     = [''1700000000000'', ''1700000000001''] \<and>
   map_get (connections (fst (connect ex_env_later
       (run initial
          [(Connect, ex_env, ex_body JUndefined JUndefined),
           (Disconnect, ex_env, ex_body (JStr ''1700000000000'') JUndefined)])
       (ex_body JUndefined JUndefined))))
     (JStr ''1700000000001'') = Some 1"
proof -
  have cr: "clockReadings
     [(Connect, ex_env, ex_body JUndefined JUndefined),
      (Disconnect, ex_env, ex_body (JStr ''1700000000000'') JUndefined),
      (Connect, ex_env_later, ex_body JUndefined JUndefined)] = [1700000000000, 1700000000001]"
    by (simp add: clockReadings_Cons clockReadings_Nil ex_readsClock ex_readsClock_later
        not_readsClock_Disconnect ex_now ex_now_later)
  have rn: "run initial
          [(Connect, ex_env, ex_body JUndefined JUndefined),
           (Disconnect, ex_env, ex_body (JStr ''1700000000000'') JUndefined)]
       = \<lparr>connections = [], pools = 1\<rparr>"
    by (simp add: ex_first_connect ex_disconnect)
  have ids: "returnedIds initial
     [(Connect, ex_env, ex_body JUndefined JUndefined),
      (Disconnect, ex_env, ex_body (JStr ''1700000000000'') JUndefined),
      (Connect, ex_env_later, ex_body JUndefined JUndefined)]
     = [''1700000000000'', ''1700000000001'']"
    by (simp add: ex_first_connect ex_disconnect ex_second_connect connect_success_def)
  have d: "distinct (clockReadings
     [(Connect, ex_env, ex_body JUndefined JUndefined),
      (Disconnect, ex_env, ex_body (JStr ''1700000000000'') JUndefined),
      (Connect, ex_env_later, ex_body JUndefined JUndefined)])"
    by (simp add: cr)
  have rid: "returnedId (fst (snd (connect ex_env_later (run initial
          [(Connect, ex_env, ex_body JUndefined JUndefined),
           (Disconnect, ex_env, ex_body (JStr ''1700000000000'') JUndefined)])
       (ex_body JUndefined JUndefined)))) = [''1700000000001'']"
    by (simp only: rn) (simp add: ex_second_connect connect_success_def)
  have pre: "[(Connect, ex_env, ex_body JUndefined JUndefined),
      (Disconnect, ex_env, ex_body (JStr ''1700000000000'') JUndefined),
      (Connect, ex_env_later, ex_body JUndefined JUndefined)] =
     [(Connect, ex_env, ex_body JUndefined JUndefined),
      (Disconnect, ex_env, ex_body (JStr ''1700000000000'') JUndefined)]
     @ (Connect, ex_env_later, ex_body JUndefined JUndefined) # [] \<and>
     returnedId (fst (snd (connect ex_env_later (run initial
          [(Connect, ex_env, ex_body JUndefined JUndefined),
           (Disconnect, ex_env, ex_body (JStr ''1700000000000'') JUndefined)])
       (ex_body JUndefined JUndefined)))) = [''1700000000001'']"
  proof (rule conjI)
    show "[(Connect, ex_env, ex_body JUndefined JUndefined),
      (Disconnect, ex_env, ex_body (JStr ''1700000000000'') JUndefined),
      (Connect, ex_env_later, ex_body JUndefined JUndefined)] =
     [(Connect, ex_env, ex_body JUndefined JUndefined),
      (Disconnect, ex_env, ex_body (JStr ''1700000000000'') JUndefined)]
     @ (Connect, ex_env_later, ex_body JUndefined JUndefined) # []"
      by simp
  qed (rule rid)
  have "map_get (connections (fst (connect ex_env_later
       (run initial
          [(Connect, ex_env, ex_body JUndefined JUndefined),
           (Disconnect, ex_env, ex_body (JStr ''1700000000000'') JUndefined)])
       (ex_body JUndefined JUndefined))))
     (JStr ''1700000000001'') = Some (pools (run initial
          [(Connect, ex_env, ex_body JUndefined JUndefined),
           (Disconnect, ex_env, ex_body (JStr ''1700000000000'') JUndefined)]))"
    using connection_ids_unique_if_clock_distinct [OF d,
      where before = "[(Connect, ex_env, ex_body JUndefined JUndefined),
        (Disconnect, ex_env, ex_body (JStr ''1700000000000'') JUndefined)]"
      and env = ex_env_later and body = "ex_body JUndefined JUndefined" and after = "[]"
      and cid = "''1700000000001''"] pre
    by blast
  then have res: "map_get (connections (fst (connect ex_env_later
       (run initial
          [(Connect, ex_env, ex_body JUndefined JUndefined),
           (Disconnect, ex_env, ex_body (JStr ''1700000000000'') JUndefined)])
       (ex_body JUndefined JUndefined))))
     (JStr ''1700000000001'') = Some 1"
    by (simp only: rn server.select_convs)
  from d ids res show ?thesis
    by (intro conjI)
qed

text \<open>
  C3, as stated, fails: two connect requests that pass their probes within the same
  millisecond are handed the same identifier.
\<close>

theorem connection_ids_collide_counterexample:
  "returnedIds initial
     [(Connect, ex_env, ex_body JUndefined JUndefined),
      (Connect, ex_env, ex_body JUndefined JUndefined)]
     = [''1700000000000'', ''1700000000000''] \<and>
   \<not> distinct (returnedIds initial
     [(Connect, ex_env, ex_body JUndefined JUndefined),
      (Connect, ex_env, ex_body JUndefined JUndefined)])"
proof -
  have now: "dateNow ex_env = 1700000000000"
    by (simp add: ex_env_def)
  have c: "\<And>st. length (connections st) \<le> 1 \<Longrightarrow>
      connect ex_env st (ex_body JUndefined JUndefined) =
      (st\<lparr>pools := Suc (pools st),
          connections := map_set ''1700000000000'' (pools st) (connections st)\<rparr>,
       connect_success ''1700000000000'' (ex_body JUndefined JUndefined),
       [NewPool (pools st), PoolConnect (pools st), ClientQuery (pools st) ''SELECT NOW()'',
        ClientRelease (pools st), MapSet ''1700000000000'' (pools st)])"
  proof -
    fix st :: server
    assume "length (connections st) \<le> 1"
    then have "length (map_set ''1700000000000'' (pools st) (connections st)) \<le> 100"
      by (cases "connections st") (auto split: if_splits)
    then show "connect ex_env st (ex_body JUndefined JUndefined) =
      (st\<lparr>pools := Suc (pools st),
          connections := map_set ''1700000000000'' (pools st) (connections st)\<rparr>,
       connect_success ''1700000000000'' (ex_body JUndefined JUndefined),
       [NewPool (pools st), PoolConnect (pools st), ClientQuery (pools st) ''SELECT NOW()'',
        ClientRelease (pools st), MapSet ''1700000000000'' (pools st)])"
      by (simp add: connect_reading [OF ex_readsClock] now ex_toString cleanup_def)
  qed
  have r: "returnedIds initial
     [(Connect, ex_env, ex_body JUndefined JUndefined),
      (Connect, ex_env, ex_body JUndefined JUndefined)]
     = [''1700000000000'', ''1700000000000'']"
    by (simp add: c initial_def connect_success_def)
  show ?thesis
    unfolding r by simp
qed

section \<open>Eviction\<close>

text \<open>
  C4 (amended). When the map holds 100 entries and a connect request passes its probe
  under an identifier the map does not hold, the new entry is stored first; then the pool
  of the entry stored first among the 100 is closed and, the close succeeding, that entry
  and no other is deleted; then the success response is sent. The map holds 100 entries
  afterwards.
\<close>

theorem eviction_follows_insertion:
  assumes "readsClock (Connect, env, body)"
    and "length (connections st) = 100"
    and "connections st = (oldestKey, oldPool) # rest"
    and "distinct (map fst (connections st))"
    and "toString (dateNow env) \<notin> fst ` set (connections st)"
    and "poolEnd env oldPool = None"
  shows "connect env st body =
     (st\<lparr>pools := Suc (pools st),
         connections := rest @ [(toString (dateNow env), pools st)]\<rparr>,
      connect_success (toString (dateNow env)) body,
      [NewPool (pools st), PoolConnect (pools st), ClientQuery (pools st) ''SELECT NOW()'',
       ClientRelease (pools st), MapSet (toString (dateNow env)) (pools st),
       PoolEnd oldPool, MapDelete oldestKey]) \<and>
    length (connections (fst (connect env st body))) = 100 \<and>
    precedes (MapSet (toString (dateNow env)) (pools st)) (PoolEnd oldPool)
      (snd (snd (connect env st body))) \<and>
    precedes (PoolEnd oldPool) (MapDelete oldestKey) (snd (snd (connect env st body))) \<and>
    \<not> precedes (PoolEnd oldPool) (MapSet (toString (dateNow env)) (pools st))
      (snd (snd (connect env st body)))"
proof -
  have c: "connect env st body =
     (st\<lparr>pools := Suc (pools st),
         connections := rest @ [(toString (dateNow env), pools st)]\<rparr>,
      connect_success (toString (dateNow env)) body,
      [NewPool (pools st), PoolConnect (pools st), ClientQuery (pools st) ''SELECT NOW()'',
       ClientRelease (pools st), MapSet (toString (dateNow env)) (pools st),
       PoolEnd oldPool, MapDelete oldestKey])"
    using assms by (intro connect_evicts_oldest) simp_all
  have "length rest = 99"
    using assms(2,3) by simp
  then show ?thesis
    by (simp add: c)
qed

theorem eviction_follows_insertion_witness:
  "readsClock (Connect, ex_env, ex_body JUndefined JUndefined) \<and>
   length (connections ex_full_server) = 100 \<and>
   connections ex_full_server = (''0'', 0) # map (\<lambda>i. (toString i, i)) [Suc 0..<100] \<and>
   distinct (map fst (connections ex_full_server)) \<and>
   toString (dateNow ex_env) \<notin> fst ` set (connections ex_full_server) \<and>
   poolEnd ex_env 0 = None \<and>
   connect ex_env ex_full_server (ex_body JUndefined JUndefined) =
     (\<lparr>connections = map (\<lambda>i. (toString i, i)) [Suc 0..<100] @ [(''1700000000000'', 100)],
       pools = 101\<rparr>,
      connect_success ''1700000000000'' (ex_body JUndefined JUndefined),
      [NewPool 100, PoolConnect 100, ClientQuery 100 ''SELECT NOW()'', ClientRelease 100,
       MapSet ''1700000000000'' 100, PoolEnd 0, MapDelete ''0'']) \<and>
   length (connections (fst (connect ex_env ex_full_server (ex_body JUndefined JUndefined))))
     = 100"
proof -
  have now: "dateNow ex_env = 1700000000000" and close: "poolEnd ex_env 0 = None"
    by (simp_all add: ex_env_def)
  have fresh: "toString (dateNow ex_env) \<notin> fst ` set (connections ex_full_server)"
    unfolding now by (rule ex_full_fresh)
  have p: "pools ex_full_server = 100"
    by (simp add: ex_full_server_def)
  have upd: "ex_full_server\<lparr>pools := Suc 100,
      connections := map (\<lambda>i. (toString i, i)) [Suc 0..<100] @ [(''1700000000000'', 100)]\<rparr> =
     \<lparr>connections = map (\<lambda>i. (toString i, i)) [Suc 0..<100] @ [(''1700000000000'', 100)],
       pools = 101\<rparr>"
    by (simp add: ex_full_server_def)
  show ?thesis
    using eviction_follows_insertion [OF ex_readsClock ex_full_length ex_full_head
        ex_full_distinct fresh close]
      ex_readsClock ex_full_head ex_full_distinct ex_full_fresh
    by (simp add: close now p ex_toString upd)
qed

text \<open>
  C4, as stated, fails: with 100 entries held, the new entry is stored before the oldest
  pool is closed, not after.
\<close>

theorem eviction_before_insertion_counterexample:
  "length (connections ex_full_server) = 100 \<and>
   fst (snd (connect ex_env ex_full_server (ex_body JUndefined JUndefined))) =
     connect_success ''1700000000000'' (ex_body JUndefined JUndefined) \<and>
   precedes (MapSet ''1700000000000'' 100) (PoolEnd 0)
     (snd (snd (connect ex_env ex_full_server (ex_body JUndefined JUndefined)))) \<and>
   \<not> precedes (PoolEnd 0) (MapSet ''1700000000000'' 100)
     (snd (snd (connect ex_env ex_full_server (ex_body JUndefined JUndefined)))) \<and>
   \<not> precedes (MapDelete ''0'') (MapSet ''1700000000000'' 100)
     (snd (snd (connect ex_env ex_full_server (ex_body JUndefined JUndefined))))"
proof -
  have now: "dateNow ex_env = 1700000000000" and close: "poolEnd ex_env 0 = None"
    by (simp_all add: ex_env_def)
  have fresh: "toString (dateNow ex_env) \<notin> fst ` set (connections ex_full_server)"
    unfolding now by (rule ex_full_fresh)
  have len: "length (connections ex_full_server) \<ge> 100"
    by (simp add: ex_full_length)
  have p: "pools ex_full_server = 100"
    by (simp add: ex_full_server_def)
  show ?thesis
    by (simp add: connect_evicts_oldest [OF ex_readsClock len ex_full_head ex_full_distinct
          fresh close] ex_full_length now p ex_toString)
qed

section \<open>The connect handler\<close>

text \<open>
  C5. A connect request in which one of \<open>host\<close>, \<open>database\<close>, \<open>username\<close>, \<open>password\<close> is
  missing (or otherwise falsy) is answered with status 400 and the validation error; no
  pool is constructed, nothing is attempted on the outside world, and the server state,
  with its map of connections, is unchanged.
\<close>

theorem connect_validation:
  assumes "\<not> truthy (host body) \<or> \<not> truthy (database body) \<or>
           \<not> truthy (username body) \<or> \<not> truthy (password body)"
  shows "connect env st body =
           (st, Responded 400 (Failure ''Missing required connection parameters''), [])"
  using assms by (simp add: connect_def)

theorem connect_validation_witness:
  "\<not> truthy (password ((ex_body JUndefined JUndefined)\<lparr>password := JUndefined\<rparr>)) \<and>
   connect ex_env ex_server ((ex_body JUndefined JUndefined)\<lparr>password := JUndefined\<rparr>) =
     (ex_server, Responded 400 (Failure ''Missing required connection parameters''), [])"
  using connect_validation [where body = "(ex_body JUndefined JUndefined)\<lparr>password := JUndefined\<rparr>"
      and env = ex_env and st = ex_server]
  by simp

section \<open>The disconnect handler\<close>

text \<open>
  C6. Disconnecting an identifier that the map does not hold answers with the success
  response, touches no pool and leaves the state unchanged. Hence, once a disconnect has
  answered with success, disconnecting the same identifier again, whatever the outside
  world then answers, gives the same response and the same state; and in one and the same
  world a second disconnect always ends in the state and with the response of the first.
\<close>

theorem disconnect_idempotent:
  "(map_get (connections st) (connectionId body) = None \<longrightarrow>
      disconnect env st body = (st, disconnect_success, [])) \<and>
   (fst (snd (disconnect env st body)) = disconnect_success \<longrightarrow>
      disconnect env' (fst (disconnect env st body)) body =
        (fst (disconnect env st body), disconnect_success, [])) \<and>
   fst (disconnect env (fst (disconnect env st body)) body) = fst (disconnect env st body) \<and>
   fst (snd (disconnect env (fst (disconnect env st body)) body)) =
     fst (snd (disconnect env st body))"
proof -
  have absent: "map_get (connections st) (connectionId body) = None \<longrightarrow>
      disconnect env st body = (st, disconnect_success, [])"
    by (simp add: disconnect_def)
  have again: "fst (snd (disconnect env st body)) = disconnect_success \<longrightarrow>
      disconnect env' (fst (disconnect env st body)) body =
        (fst (disconnect env st body), disconnect_success, [])"
  proof (rule impI)
    assume ok: "fst (snd (disconnect env st body)) = disconnect_success"
    show "disconnect env' (fst (disconnect env st body)) body =
        (fst (disconnect env st body), disconnect_success, [])"
    proof (cases "map_get (connections st) (connectionId body)")
      case None
      then show ?thesis by (simp add: disconnect_def)
    next
      case (Some pool)
      then obtain cid where cid: "connectionId body = JStr cid"
        using map_get_Some_JStr by blast
      show ?thesis
      proof (cases "poolEnd env pool")
        case None
        with Some cid show ?thesis
          by (simp add: disconnect_def map_of_map_delete)
      next
        case (Some error)
        with \<open>map_get (connections st) (connectionId body) = Some pool\<close> ok show ?thesis
          by (simp add: disconnect_def disconnect_success_def)
      qed
    qed
  qed
  have same: "fst (disconnect env (fst (disconnect env st body)) body) =
        fst (disconnect env st body) \<and>
      fst (snd (disconnect env (fst (disconnect env st body)) body)) =
        fst (snd (disconnect env st body))"
  proof (cases "map_get (connections st) (connectionId body)")
    case None
    then show ?thesis by (simp add: disconnect_def)
  next
    case (Some pool)
    then obtain cid where cid: "connectionId body = JStr cid"
      using map_get_Some_JStr by blast
    show ?thesis
    proof (cases "poolEnd env pool")
      case None
      with Some cid show ?thesis
        by (simp add: disconnect_def map_of_map_delete)
    next
      case (Some error)
      with \<open>map_get (connections st) (connectionId body) = Some pool\<close> show ?thesis
        by (simp add: disconnect_def)
    qed
  qed
  from absent again same show ?thesis
    by (intro conjI) simp_all
qed

theorem disconnect_idempotent_witness:
  "map_get (connections ex_server) (connectionId (ex_body (JStr ''17'') JUndefined)) = None \<and>
   disconnect ex_env ex_server (ex_body (JStr ''17'') JUndefined) =
     (ex_server, disconnect_success, []) \<and>
   fst (snd (disconnect ex_env ex_server (ex_body (JStr ''1700000000000'') JUndefined))) =
     disconnect_success \<and>
   disconnect ex_env_unclosable
     (fst (disconnect ex_env ex_server (ex_body (JStr ''1700000000000'') JUndefined)))
     (ex_body (JStr ''1700000000000'') JUndefined) =
     (\<lparr>connections = [], pools = 1\<rparr>, disconnect_success, [])"
  using disconnect_idempotent [where st = ex_server and body = "ex_body (JStr ''17'') JUndefined"
      and env = ex_env]
    disconnect_idempotent [where st = ex_server
      and body = "ex_body (JStr ''1700000000000'') JUndefined"
      and env = ex_env and env' = ex_env_unclosable]
  by (simp add: ex_eval disconnect_def map_delete_def)

text \<open>
  C10. When the map holds the identifier and closing its pool fails, the handler answers
  with status 500 and the state is unchanged: the identifier still resolves to the same
  pool. The entry is gone after the request exactly when the close succeeded.
\<close>

theorem disconnect_close_failure:
  assumes "map_get (connections st) (connectionId body) = Some pool"
  shows "(poolEnd env pool = Some error \<longrightarrow>
            disconnect env st body =
              (st, Responded 500 (FailureDetails ''Error during disconnect'' (message error)),
               [PoolEnd pool]) \<and>
            map_get (connections (fst (disconnect env st body))) (connectionId body) = Some pool) \<and>
         (map_get (connections (fst (disconnect env st body))) (connectionId body) = None
            \<longleftrightarrow> poolEnd env pool = None)"
proof -
  obtain cid where cid: "connectionId body = JStr cid"
    using assms map_get_Some_JStr by blast
  show ?thesis
  proof (cases "poolEnd env pool")
    case None
    with assms cid show ?thesis
      by (simp add: disconnect_def map_of_map_delete)
  next
    case (Some e)
    with assms show ?thesis
      by (simp add: disconnect_def)
  qed
qed

theorem disconnect_close_failure_witness:
  "map_get (connections ex_server) (connectionId (ex_body (JStr ''1700000000000'') JUndefined))
     = Some 0 \<and>
   poolEnd ex_env_unclosable 0 = Some ex_end_error \<and>
   disconnect ex_env_unclosable ex_server (ex_body (JStr ''1700000000000'') JUndefined) =
     (ex_server,
      Responded 500 (FailureDetails ''Error during disconnect''
        ''Called end on pool more than once''),
      [PoolEnd 0]) \<and>
   map_get (connections (fst (disconnect ex_env_unclosable ex_server
       (ex_body (JStr ''1700000000000'') JUndefined))))
     (connectionId (ex_body (JStr ''1700000000000'') JUndefined)) = Some 0"
  using disconnect_close_failure [where st = ex_server
      and body = "ex_body (JStr ''1700000000000'') JUndefined" and pool = 0
      and env = ex_env_unclosable and error = ex_end_error]
  by (simp add: ex_eval)

section \<open>The query handler\<close>

text \<open>
  C7. A query request whose \<open>connectionId\<close> or \<open>query\<close> is missing or empty, and one
  whose identifier the map does not hold, is answered with status 400 and an error body;
  nothing is sent to any pool, the state is unchanged, and the handler does respond (no
  exception leaves it).
\<close>

theorem query_precondition_errors:
  "(\<not> truthy (connectionId body) \<or> \<not> truthy (query body) \<longrightarrow>
      query_handler env st body =
        (st, Responded 400 (Failure ''Missing connectionId or query''), [])) \<and>
   (truthy (connectionId body) \<and> truthy (query body) \<and>
    map_get (connections st) (connectionId body) = None \<longrightarrow>
      query_handler env st body =
        (st, Responded 400 (Failure ''Invalid connection ID or connection expired''), []))"
  by (simp add: query_handler_def)

theorem query_precondition_errors_witness:
  "\<not> truthy (query (ex_body (JStr ''1700000000000'') (JStr ''''))) \<and>
   query_handler ex_env ex_server (ex_body (JStr ''1700000000000'') (JStr '''')) =
     (ex_server, Responded 400 (Failure ''Missing connectionId or query''), []) \<and>
   truthy (connectionId (ex_body (JStr ''17'') (JStr ''SELECT 1''))) \<and>
   truthy (query (ex_body (JStr ''17'') (JStr ''SELECT 1''))) \<and>
   map_get (connections ex_server) (connectionId (ex_body (JStr ''17'') (JStr ''SELECT 1'')))
     = None \<and>
   query_handler ex_env ex_server (ex_body (JStr ''17'') (JStr ''SELECT 1'')) =
     (ex_server, Responded 400 (Failure ''Invalid connection ID or connection expired''), [])"
  using query_precondition_errors [where body = "ex_body (JStr ''1700000000000'') (JStr '''')"
      and env = ex_env and st = ex_server]
    query_precondition_errors [where body = "ex_body (JStr ''17'') (JStr ''SELECT 1'')"
      and env = ex_env and st = ex_server]
  by (simp add: ex_body_def ex_server_def)

text \<open>
  C9. When the gate allows a query, the text sent to the pool is the submitted string
  itself, not its trimmed and lower-cased form, and the success response echoes the
  submitted string.
\<close>

theorem executed_text_is_original:
  assumes "truthy (connectionId body)" and "query body = JStr q" and "q \<noteq> []"
    and "map_get (connections st) (connectionId body) = Some pool"
    and "classify q = ALLOWED"
  shows "snd (snd (query_handler env st body)) = [PoolQuery pool q] \<and>
         (poolQuery env pool q = Inr result \<longrightarrow>
            fst (snd (query_handler env st body)) =
              Responded 200 (QueryOk (rows result) (rowCount result)
                (int (dateNowAfter env) - int (dateNow env))
                (map_option (map (\<lambda>field. (name field, dataTypeID field))) (resultFields result))
                q (toISOString env)))"
  using assms by (auto simp: query_handler_gate query_success_def split: sum.splits)

theorem executed_text_is_original_witness:
  "classify ''  SELECT 1 AS x '' = ALLOWED \<and>
   trimmedQuery ''  SELECT 1 AS x '' = ''select 1 as x'' \<and>
   snd (snd (query_handler ex_env ex_server
     (ex_body (JStr ''1700000000000'') (JStr ''  SELECT 1 AS x ''))))
     = [PoolQuery 0 ''  SELECT 1 AS x ''] \<and>
   fst (snd (query_handler ex_env ex_server
     (ex_body (JStr ''1700000000000'') (JStr ''  SELECT 1 AS x '')))) =
     Responded 200 (QueryOk [[(''x'', JNum 1)]] (Some 1) 7 (Some [(''x'', 23)])
       ''  SELECT 1 AS x '' ''2023-11-14T22:13:20.007Z'')"
  using executed_text_is_original [where q = "''  SELECT 1 AS x ''"
      and body = "ex_body (JStr ''1700000000000'') (JStr ''  SELECT 1 AS x '')"
      and st = ex_server and pool = 0 and env = ex_env and result = ex_result]
  by (simp add: gate_eval ex_eval)

text \<open>
  C8. A query that the database rejects reaches the \<^verbatim>\<open>catch\<close> block, whose response names
  \<^verbatim>\<open>query\<close>, a constant of the \<^verbatim>\<open>try\<close> block that is not in scope there: building
  the response throws a \<open>ReferenceError\<close>, whatever the error code, so the handler sends
  no response at all, and neither the remapped message nor the query text reaches the
  client.
\<close>

theorem query_error_response_throws:
  assumes "truthy (connectionId body)" and "query body = JStr q" and "q \<noteq> []"
    and "map_get (connections st) (connectionId body) = Some pool"
    and "classify q = ALLOWED"
    and "poolQuery env pool q = Inl error"
  shows "query_handler env st body =
           (st, Uncaught (ReferenceError ''query is not defined''), [PoolQuery pool q])"
  using assms by (simp add: query_handler_gate query_catch_uncaught)

theorem query_error_response_throws_witness:
  "truthy (connectionId (ex_body (JStr ''1700000000000'') (JStr ''SELECT * FROM missing''))) \<and>
   map_get (connections ex_server)
     (connectionId (ex_body (JStr ''1700000000000'') (JStr ''SELECT * FROM missing'')))
     = Some 0 \<and>
   classify ''SELECT * FROM missing'' = ALLOWED \<and>
   poolQuery ex_env_rejecting 0 ''SELECT * FROM missing'' = Inl ex_db_error \<and>
   code ex_db_error = Some ''42P01'' \<and>
   errorMessage ex_db_error =
     ''Table or relation does not exist: relation missing does not exist'' \<and>
   query_handler ex_env_rejecting ex_server
     (ex_body (JStr ''1700000000000'') (JStr ''SELECT * FROM missing'')) =
   (ex_server, Uncaught (ReferenceError ''query is not defined''),
    [PoolQuery 0 ''SELECT * FROM missing''])"
  using query_error_response_throws [where q = "''SELECT * FROM missing''"
      and body = "ex_body (JStr ''1700000000000'') (JStr ''SELECT * FROM missing'')"
      and st = ex_server and pool = 0 and env = ex_env_rejecting and error = ex_db_error]
  by (simp add: gate_eval ex_eval errorMessage_def)

end
